theory Spec2Isabelle
  imports Main "HOL-Library.Word" "HOL-Library.Char_ord" "HOL-Library.List_Lexorder"
begin

section \<open>Arrays, element types and the dtype registry\<close>

text \<open>
  The module \<^verbatim>\<open>python/tpu_perf/io.py\<close> converts numpy arrays to and from protobuf
  messages (BlobProto, BlobProtoVector, Datum) and writes serialized Datum records to an
  LMDB store.

  A numpy array is modelled as it lies in memory: its dtype, its shape, and its elements
  in C order, each element being the \<open>itemsize\<close> bytes of its representation. Only
  C-contiguous arrays in native byte order are modelled. The first eight dtypes are the
  keys of \<^verbatim>\<open>dtype_dict\<close>; the other four stand for the numpy types the table does not
  list.
\<close>

datatype dtype =
  Float32 | Float16 | Int8 | UInt8 | Int16 | UInt16 | Int32 | UInt32
  | Float64 | Int64 | UInt64 | Bool

type_synonym byte = "8 word"
type_synonym elem = "byte list"

record ndarray =
  dtype :: dtype
  shape :: "nat list"
  flat :: "elem list"

fun itemsize :: "dtype \<Rightarrow> nat" where
  "itemsize Float32 = 4"
| "itemsize Float16 = 2"
| "itemsize Int8 = 1"
| "itemsize UInt8 = 1"
| "itemsize Int16 = 2"
| "itemsize UInt16 = 2"
| "itemsize Int32 = 4"
| "itemsize UInt32 = 4"
| "itemsize Float64 = 8"
| "itemsize Int64 = 8"
| "itemsize UInt64 = 8"
| "itemsize Bool = 1"

text \<open>An array is well formed when it holds as many elements as its shape says, each of
  the width of its dtype.\<close>

definition wf_array :: "ndarray \<Rightarrow> bool" where
  "wf_array a \<longleftrightarrow>
     length (flat a) = prod_list (shape a) \<and>
     list_all (\<lambda>e. length e = itemsize (dtype a)) (flat a)"

text \<open>The exceptions the module can raise or let through.\<close>

datatype error = KeyError | ValueError | IndexError | AssertionError | Exception
  | MapFullError | BadValsizeError

text \<open>The enumeration \<^verbatim>\<open>BlobProto.Dtype\<close> of the generated module \<^verbatim>\<open>blob_pb2\<close>, and the
  three tables built from it.\<close>

datatype tag = FP32 | FP16 | INT8 | UINT8 | INT16 | UINT16 | INT32 | UINT32

definition dtype_dict :: "(dtype \<times> tag) list" where
  "dtype_dict =
     [(Float32, FP32), (Float16, FP16), (Int8, INT8), (UInt8, UINT8),
      (Int16, INT16), (UInt16, UINT16), (Int32, INT32), (UInt32, UINT32)]"

definition ufw_dtype :: "dtype \<rightharpoonup> tag" where
  "ufw_dtype = map_of dtype_dict"

definition np_dtype :: "tag \<rightharpoonup> dtype" where
  "np_dtype = map_of (map (\<lambda>(k, v). (v, k)) dtype_dict)"

definition registered :: "dtype \<Rightarrow> bool" where
  "registered dt \<longleftrightarrow> dt \<in> fst ` set dtype_dict"

section \<open>Casts\<close>

text \<open>
  numpy's conversion between two floating dtypes (IEEE rounding or widening) is not
  computed by this module; it is a parameter \<open>fc src dst\<close> of every function that casts
  floats. Integer elements are read little-endian; \<^verbatim>\<open>astype(np.int32)\<close> keeps the value of
  the narrower types and wraps \<^verbatim>\<open>uint32\<close> into the signed range.
\<close>

type_synonym fcast = "dtype \<Rightarrow> dtype \<Rightarrow> elem \<Rightarrow> elem"

definition le_nat :: "byte list \<Rightarrow> nat" where
  "le_nat bs = foldr (\<lambda>b n. unat b + 256 * n) bs 0"

definition signed_of :: "nat \<Rightarrow> nat \<Rightarrow> int" where
  "signed_of bits v = (if 2 ^ (bits - 1) \<le> v then int v - 2 ^ bits else int v)"

definition astype_int32 :: "dtype \<Rightarrow> elem \<Rightarrow> int" where
  "astype_int32 dt e =
     (if dt \<in> {Int8, Int16, Int32, UInt32} then signed_of (8 * length e) (le_nat e)
      else int (le_nat e))"

definition astype_float32 :: "fcast \<Rightarrow> dtype \<Rightarrow> elem \<Rightarrow> elem" where
  "astype_float32 fc dt e = (if dt = Float32 then e else fc dt Float32 e)"

definition le_bytes :: "nat \<Rightarrow> int \<Rightarrow> elem" where
  "le_bytes n i = map (\<lambda>k. word_of_int (i div 256 ^ k)) [0..<n]"

text \<open>\<^verbatim>\<open>ndarray.reshape\<close>: the element count must match the new shape.\<close>

definition reshape :: "ndarray \<Rightarrow> nat list \<Rightarrow> error + ndarray" where
  "reshape a s = (if prod_list s = length (flat a) then Inr (a\<lparr>shape := s\<rparr>) else Inl ValueError)"

section \<open>Protobuf messages\<close>

text \<open>
  A message is a record; an optional field is an \<open>option\<close> (\<^verbatim>\<open>HasField\<close> asks whether it
  is \<open>Some\<close>), and reading an unset numeric field gives 0. A value of a \<^verbatim>\<open>repeated float\<close>
  field is a float32, kept as its four bytes. The wire encoding is protobuf's:
  \<^verbatim>\<open>SerializeToString\<close> wraps a message and \<^verbatim>\<open>ParseFromString\<close> unwraps it.
\<close>

type_synonym float32 = elem

record blobproto =
  b_num :: "nat option"
  b_channels :: "nat option"
  b_height :: "nat option"
  b_width :: "nat option"
  b_shape :: "nat list"
  b_dtype :: "tag option"
  b_data :: "float32 list"
  b_diff :: "float32 list"
  b_int32_data :: "int list"

definition BlobProto :: blobproto where
  "BlobProto = \<lparr>b_num = None, b_channels = None, b_height = None, b_width = None,
     b_shape = [], b_dtype = None, b_data = [], b_diff = [], b_int32_data = []\<rparr>"

definition field :: "nat option \<Rightarrow> nat" where
  "field x = (case x of None \<Rightarrow> 0 | Some v \<Rightarrow> v)"

datatype 'm wire = Wire 'm

definition SerializeToString :: "'m \<Rightarrow> 'm wire" where
  "SerializeToString m = Wire m"

fun ParseFromString :: "'m wire \<Rightarrow> 'm" where
  "ParseFromString (Wire m) = m"

section \<open>BlobProto conversion\<close>

definition array_to_blobproto :: "fcast \<Rightarrow> ndarray \<Rightarrow> error + blobproto" where
  "array_to_blobproto fc arr =
     (let blob = BlobProto\<lparr>b_shape := shape arr\<rparr> in
      case ufw_dtype (dtype arr) of
        None \<Rightarrow> Inl KeyError
      | Some t \<Rightarrow>
          (let blob = blob\<lparr>b_dtype := Some t\<rparr> in
           if dtype arr \<in> {Float32, Float16, Float64}
           then Inr (blob\<lparr>b_data := map (astype_float32 fc (dtype arr)) (flat arr)\<rparr>)
           else if dtype arr \<in> {UInt32, Int32, Int8, UInt8, Int16, UInt16}
           then Inr (blob\<lparr>b_int32_data := map (astype_int32 (dtype arr)) (flat arr)\<rparr>)
           else Inl Exception))"

text \<open>A list comprehension whose body may raise: the first exception ends it.\<close>

fun comprehension :: "('a \<Rightarrow> error + 'b) \<Rightarrow> 'a list \<Rightarrow> error + 'b list" where
  "comprehension f [] = Inr []"
| "comprehension f (x # xs) =
     (case f x of
        Inl e \<Rightarrow> Inl e
      | Inr y \<Rightarrow> (case comprehension f xs of Inl e \<Rightarrow> Inl e | Inr ys \<Rightarrow> Inr (y # ys)))"

definition arraylist_to_blobprotovector_str ::
    "fcast \<Rightarrow> ndarray list \<Rightarrow> error + blobproto list wire" where
  "arraylist_to_blobprotovector_str fc arraylist =
     (case comprehension (array_to_blobproto fc) arraylist of
        Inl e \<Rightarrow> Inl e
      | Inr blobs \<Rightarrow> Inr (SerializeToString blobs))"

text \<open>\<^verbatim>\<open>np.array\<close> of a repeated float field is a one-dimensional float64 array.\<close>

definition np_array_floats :: "fcast \<Rightarrow> float32 list \<Rightarrow> ndarray" where
  "np_array_floats fc xs =
     \<lparr>dtype = Float64, shape = [length xs], flat = map (fc Float32 Float64) xs\<rparr>"

definition blobproto_to_array :: "fcast \<Rightarrow> blobproto \<Rightarrow> bool \<Rightarrow> error + ndarray" where
  "blobproto_to_array fc blob return_diff =
     (let data = (if return_diff then np_array_floats fc (b_diff blob)
                  else np_array_floats fc (b_data blob)) in
      if b_num blob \<noteq> None \<or> b_channels blob \<noteq> None \<or> b_height blob \<noteq> None
         \<or> b_width blob \<noteq> None
      then reshape data [field (b_num blob), field (b_channels blob),
                         field (b_height blob), field (b_width blob)]
      else reshape data (b_shape blob))"

definition blobprotovector_str_to_arraylist ::
    "fcast \<Rightarrow> blobproto list wire \<Rightarrow> error + ndarray list" where
  "blobprotovector_str_to_arraylist fc str =
     (let vec = ParseFromString str in
      comprehension (\<lambda>blob. blobproto_to_array fc blob False) vec)"

text \<open>
  \<^verbatim>\<open>blob_to_array\<close>, for an argument that is a message (the branch that reads a file
  first parses it into one). It returns the payload container itself, an array, or
  nothing.
\<close>

datatype py_value = RepeatedFloat "float32 list" | RepeatedInt "int list"
  | NDArray ndarray | PyNone

definition toArray_float :: "fcast \<Rightarrow> nat list \<Rightarrow> float32 list \<Rightarrow> error + py_value" where
  "toArray_float fc shp data =
     (let lenData = length data in
      if shp = [] \<and> lenData = 1 then Inr (RepeatedFloat data)
      else if shp = [] \<and> lenData > 1 then Inl Exception
      else if lenData > 0
      then (case reshape ((np_array_floats fc data)
                \<lparr>dtype := Float32,
                 flat := map (fc Float64 Float32) (flat (np_array_floats fc data))\<rparr>) shp of
              Inl e \<Rightarrow> Inl e | Inr a \<Rightarrow> Inr (NDArray a))
      else Inr PyNone)"

definition toArray_int :: "nat list \<Rightarrow> int list \<Rightarrow> error + py_value" where
  "toArray_int shp data =
     (let lenData = length data in
      if shp = [] \<and> lenData = 1 then Inr (RepeatedInt data)
      else if shp = [] \<and> lenData > 1 then Inl Exception
      else if lenData > 0
      then (case reshape \<lparr>dtype = Int32, shape = [lenData], flat = map (le_bytes 4) data\<rparr>
                  shp of
              Inl e \<Rightarrow> Inl e | Inr a \<Rightarrow> Inr (NDArray a))
      else Inr PyNone)"

definition blob_to_array :: "fcast \<Rightarrow> blobproto \<Rightarrow> error + py_value" where
  "blob_to_array fc blob =
     (let shp = b_shape blob in
      if length (b_data blob) > 0 then toArray_float fc shp (b_data blob)
      else if length (b_int32_data blob) > 0 then toArray_int shp (b_int32_data blob)
      else Inr PyNone)"

section \<open>Datum conversion\<close>

text \<open>
  A Datum holds its shape in an optional sub-message (\<^verbatim>\<open>extend\<close> on its \<^verbatim>\<open>dim\<close> list marks
  it present), the legacy fields \<^verbatim>\<open>channels\<close>, \<^verbatim>\<open>height\<close>, \<^verbatim>\<open>width\<close>, a byte string,
  a float list, the dtype tag and an optional label. The label is a fixed-width
  protobuf integer field; its declaration is in the generated module \<^verbatim>\<open>blob_pb2\<close>, which
  is not among the sources, so its width in bits is a parameter \<open>lb\<close>. Assigning a
  Python integer outside the field's range raises ValueError.
\<close>

record datum =
  d_shape :: "nat list option"
  d_channels :: "nat option"
  d_height :: "nat option"
  d_width :: "nat option"
  d_data :: "byte list"
  d_float_data :: "float32 list"
  d_dtype :: tag
  d_label :: "int option"

text \<open>\<^verbatim>\<open>arr.view(np.uint8).tostring()\<close>: numpy refuses to change the item size of a
  zero-dimensional array; otherwise the bytes of the elements in C order.\<close>

definition view_uint8_tostring :: "ndarray \<Rightarrow> error + byte list" where
  "view_uint8_tostring arr =
     (if shape arr = [] \<and> itemsize (dtype arr) \<noteq> 1 then Inl ValueError
      else Inr (concat (flat arr)))"

definition label_fits :: "nat \<Rightarrow> int option \<Rightarrow> bool" where
  "label_fits lb label =
     (case label of None \<Rightarrow> True | Some l \<Rightarrow> - (2 ^ (lb - 1)) \<le> l \<and> l < 2 ^ (lb - 1))"

definition array_to_datum :: "nat \<Rightarrow> ndarray \<Rightarrow> int option \<Rightarrow> error + datum" where
  "array_to_datum lb arr label =
     (case (if dtype arr = Float32 then Inr ([], flat arr)
            else (case view_uint8_tostring arr of
                    Inl e \<Rightarrow> Inl e
                  | Inr bs \<Rightarrow> Inr (bs, []))) of
        Inl e \<Rightarrow> Inl e
      | Inr (bytes, floats) \<Rightarrow>
          (case ufw_dtype (dtype arr) of
             None \<Rightarrow> Inl KeyError
           | Some t \<Rightarrow>
               if label_fits lb label
               then Inr \<lparr>d_shape = Some (shape arr), d_channels = None, d_height = None,
                         d_width = None, d_data = bytes, d_float_data = floats,
                         d_dtype = t, d_label = label\<rparr>
               else Inl ValueError))"

fun chunks :: "nat \<Rightarrow> 'a list \<Rightarrow> 'a list list" where
  "chunks n xs = (if n = 0 \<or> xs = [] then [] else take n xs # chunks n (drop n xs))"

declare chunks.simps [simp del]

text \<open>\<^verbatim>\<open>np.fromstring(data, dtype=np.uint8).view(dt)\<close>: the byte count must be a multiple
  of the item size.\<close>

definition fromstring_view :: "byte list \<Rightarrow> dtype \<Rightarrow> error + ndarray" where
  "fromstring_view bs dt =
     (if length bs mod itemsize dt \<noteq> 0 then Inl ValueError
      else Inr \<lparr>dtype = dt, shape = [length bs div itemsize dt],
                flat = chunks (itemsize dt) bs\<rparr>)"

definition datum_to_array :: "fcast \<Rightarrow> datum \<Rightarrow> error + ndarray" where
  "datum_to_array fc datum =
     (let shp = (case d_shape datum of
                   Some dim \<Rightarrow> dim
                 | None \<Rightarrow> [field (d_channels datum), field (d_height datum),
                             field (d_width datum)]) in
      if length (d_data datum) > 0
      then (case np_dtype (d_dtype datum) of
              None \<Rightarrow> Inl KeyError
            | Some dt \<Rightarrow>
                (case fromstring_view (d_data datum) dt of
                   Inl e \<Rightarrow> Inl e
                 | Inr a \<Rightarrow> reshape a shp))
      else reshape ((np_array_floats fc (d_float_data datum))
               \<lparr>dtype := Float32,
                flat := map (fc Float64 Float32)
                          (flat (np_array_floats fc (d_float_data datum)))\<rparr>) shp)"

section \<open>The LMDB store\<close>

text \<open>
  The store is the \<^verbatim>\<open>lmdb\<close> library's, modelled as far as the writer and the reader use
  it. An environment holds the committed records in key order and its map size; a write
  transaction holds the records written since the last commit. How many bytes a record
  takes is a parameter \<open>sz\<close>. \<^verbatim>\<open>txn.put(key, value, append=True)\<close> raises
  \<^verbatim>\<open>BadValsizeError\<close> for an empty key or one longer than the library's 511 bytes, returns
  False and writes nothing when the key is not greater than the last key of the
  database (\<^verbatim>\<open>MDB_KEYEXIST\<close>), raises \<^verbatim>\<open>MapFullError\<close> when the records would no longer
  fit the map size, and otherwise appends the record and returns True. Keys are byte
  strings, compared lexicographically.
\<close>

type_synonym key = string
type_synonym val = "datum wire"
type_synonym sizer = "key \<times> val \<Rightarrow> nat"

record env =
  committed :: "(key \<times> val) list"
  map_size :: nat

definition used :: "sizer \<Rightarrow> (key \<times> val) list \<Rightarrow> nat" where
  "used sz recs = sum_list (map sz recs)"

definition max_key_size :: nat where
  "max_key_size = 511"

definition key_ok :: "key \<Rightarrow> bool" where
  "key_ok k \<longleftrightarrow> k \<noteq> [] \<and> length k \<le> max_key_size"

definition txn_put ::
    "sizer \<Rightarrow> env \<Rightarrow> (key \<times> val) list \<Rightarrow> key \<Rightarrow> val \<Rightarrow> error + bool \<times> (key \<times> val) list" where
  "txn_put sz e t k v =
     (let recs = committed e @ t in
      if \<not> key_ok k then Inl BadValsizeError
      else if recs \<noteq> [] \<and> k \<le> fst (last recs) then Inr (False, t)
      else if map_size e < used sz (recs @ [(k, v)]) then Inl MapFullError
      else Inr (True, t @ [(k, v)]))"

section \<open>The writer \<^verbatim>\<open>LMDB_Dataset\<close>\<close>

record writer =
  db :: env
  txn :: "(key \<times> val) list"
  queue_size :: nat
  index :: nat
  value_list :: "val list"
  key_list :: "key list"

definition LMDB_Dataset :: "env \<Rightarrow> nat \<Rightarrow> nat \<Rightarrow> writer" where
  "LMDB_Dataset e qs ms =
     \<lparr>db = e\<lparr>map_size := ms\<rparr>, txn = [], queue_size = qs, index = 0,
      value_list = [], key_list = []\<rparr>"

text \<open>The key format \<^verbatim>\<open>"{:0>10d}__{:1}"\<close>: the decimal index, right-aligned and filled
  with zeros to at least ten characters, two underscores, and the suffix, left-aligned
  and filled with spaces to at least one character.\<close>

definition digit_char :: "nat \<Rightarrow> char" where
  "digit_char d = ''0123456789'' ! d"

fun dec :: "nat \<Rightarrow> string" where
  "dec n = (if n < 10 then [digit_char n] else dec (n div 10) @ [digit_char (n mod 10)])"

declare dec.simps [simp del]

definition DB_KEY_FORMAT :: "nat \<Rightarrow> string \<Rightarrow> key" where
  "DB_KEY_FORMAT i k =
     replicate (10 - length (dec i)) CHR ''0'' @ dec i @ ''__''
       @ k @ replicate (1 - length k) CHR '' ''"

text \<open>The arguments of \<^verbatim>\<open>put\<close>: one array or a sequence of arrays; no label, one integer
  label, or a sequence of labels; no key, one key suffix, or a sequence of suffixes.\<close>

datatype images_arg = OneArray ndarray | Arrays "ndarray list"
datatype labels_arg = NoLabels | IntLabel int | LabelSeq "int list"
datatype keys_arg = NoKeys | OneKey string | KeySeq "string list"

definition put_datum :: "nat \<Rightarrow> ndarray list \<Rightarrow> labels_arg \<Rightarrow> error + val list" where
  "put_datum lb arr labels =
     (let num = length arr in
      case (case labels of
              LabelSeq ls \<Rightarrow> if length ls < num then Inl IndexError
                             else Inr (map Some (take num ls))
            | NoLabels \<Rightarrow> Inr (replicate num None)
            | IntLabel l \<Rightarrow> Inr [Some l]) of
        Inl e \<Rightarrow> Inl e
      | Inr ls \<Rightarrow>
          comprehension
            (\<lambda>(g, l). case array_to_datum lb g l of
                         Inl e \<Rightarrow> Inl e
                       | Inr d \<Rightarrow> Inr (SerializeToString d))
            (zip arr ls))"

text \<open>\<^verbatim>\<open>_put\<close>: one write; on \<^verbatim>\<open>MapFullError\<close> the transaction is aborted, the map size
  doubled and a new transaction begun. What \<^verbatim>\<open>txn.put\<close> returns is not looked at, and
  any other exception is let through.\<close>

definition put_kv :: "sizer \<Rightarrow> key \<Rightarrow> val \<Rightarrow> writer \<Rightarrow> error + bool \<times> writer" where
  "put_kv sz k v w =
     (case txn_put sz (db w) (txn w) k v of
        Inr (written, t) \<Rightarrow> Inr (True, w\<lparr>txn := t\<rparr>)
      | Inl e \<Rightarrow>
          if e = MapFullError
          then Inr (False, w\<lparr>db := (db w)\<lparr>map_size := map_size (db w) * 2\<rparr>, txn := []\<rparr>)
          else Inl e)"

text \<open>\<^verbatim>\<open>_put_batch\<close>. The loop runs over the lists as they were when it started; the
  recursive call re-reads them from the writer. The recursion need not end, so it
  carries fuel for its depth: \<open>None\<close> is a call that does not return. An exception comes
  with the writer as it was when raised.\<close>

fun put_batch :: "sizer \<Rightarrow> nat \<Rightarrow> writer \<Rightarrow> ((error \<times> writer) + writer) option"
  and put_loop ::
    "sizer \<Rightarrow> nat \<Rightarrow> (key \<times> val) list \<Rightarrow> writer \<Rightarrow> ((error \<times> writer) + writer) option" where
  "put_batch sz 0 w = None"
| "put_batch sz (Suc n) w =
     (if length (key_list w) = 0 then Some (Inr w)
      else (case put_loop sz n (zip (key_list w) (value_list w)) w of
              None \<Rightarrow> None
            | Some (Inl ew) \<Rightarrow> Some (Inl ew)
            | Some (Inr w') \<Rightarrow>
                Some (Inr (w'\<lparr>db := (db w')\<lparr>committed := committed (db w') @ txn w'\<rparr>,
                              txn := [], value_list := [], key_list := []\<rparr>))))"
| "put_loop sz n [] w = Some (Inr w)"
| "put_loop sz n ((k, v) # rest) w =
     (case put_kv sz k v w of
        Inl e \<Rightarrow> Some (Inl (e, w))
      | Inr (True, w') \<Rightarrow> put_loop sz n rest w'
      | Inr (False, w') \<Rightarrow>
          (case put_batch sz n w' of
             None \<Rightarrow> None
           | Some (Inl ew) \<Rightarrow> Some (Inl ew)
           | Some (Inr w'') \<Rightarrow> put_loop sz n rest w''))"

text \<open>\<^verbatim>\<open>put\<close>. An exception leaves the writer as it was when raised, so the error comes
  with that state.\<close>

definition put ::
    "nat \<Rightarrow> sizer \<Rightarrow> nat \<Rightarrow> images_arg \<Rightarrow> labels_arg \<Rightarrow> keys_arg \<Rightarrow> writer
       \<Rightarrow> ((error \<times> writer) + writer) option" where
  "put lb sz fuel images labels keys w =
     (let images = (case images of OneArray a \<Rightarrow> [a] | Arrays arrs \<Rightarrow> arrs);
          num = length images;
          keys = (case keys of NoKeys \<Rightarrow> replicate num [] | OneKey k \<Rightarrow> [k]
                  | KeySeq ks \<Rightarrow> ks)
      in if num \<noteq> length keys then Some (Inl (AssertionError, w))
         else
           (let keys = map (\<lambda>(i, k). DB_KEY_FORMAT (index w + i) k) (enumerate 0 keys);
                w1 = w\<lparr>key_list := key_list w @ keys\<rparr>
            in case put_datum lb images labels of
                 Inl e \<Rightarrow> Some (Inl (e, w1))
               | Inr vals \<Rightarrow>
                   (let w2 = w1\<lparr>value_list := value_list w1 @ vals, index := index w1 + num\<rparr>
                    in if queue_size w2 \<le> length (key_list w2)
                       then put_batch sz fuel w2
                       else Some (Inr w2))))"

definition close :: "sizer \<Rightarrow> nat \<Rightarrow> writer \<Rightarrow> ((error \<times> writer) + env) option" where
  "close sz fuel w =
     (case put_batch sz fuel w of
        None \<Rightarrow> None
      | Some (Inl ew) \<Rightarrow> Some (Inl ew)
      | Some (Inr w') \<Rightarrow> Some (Inr (db w')))"

section \<open>The reader \<^verbatim>\<open>lmdb_data\<close>\<close>




section \<open>Callers, and the key format in the spec's words\<close>






text \<open>A stand-in for numpy's float casts, used to evaluate examples: it zero-extends or
  truncates an element to the width of the target dtype.\<close>

definition pad_cast :: fcast where
  "pad_cast src dst e = take (itemsize dst) (e @ replicate 8 0)"

text \<open>One-byte arrays, their Datum without a label, and a record size (every record takes
  one unit) for examples.\<close>

definition byte_array :: "byte \<Rightarrow> ndarray" where
  "byte_array b = \<lparr>dtype = UInt8, shape = [1], flat = [[b]]\<rparr>"

definition byte_datum :: "byte \<Rightarrow> datum" where
  "byte_datum b =
     \<lparr>d_shape = Some [1], d_channels = None, d_height = None, d_width = None,
      d_data = [b], d_float_data = [], d_dtype = UINT8, d_label = None\<rparr>"

definition sample_value :: val where
  "sample_value = Wire (byte_datum 1)"

definition unit_size :: sizer where
  "unit_size r = 1"

section \<open>Properties of the codec\<close>

lemma registered_iff: "registered dt \<longleftrightarrow> ufw_dtype dt \<noteq> None"
  by (cases dt) (simp_all add: registered_def ufw_dtype_def dtype_dict_def)






lemma comprehension_error:
  assumes "x \<in> set xs" and "f x = Inl e" and all: "\<And>y e'. f y = Inl e' \<Longrightarrow> e' = e"
  shows "comprehension f xs = Inl e"
  using assms(1)
proof (induction xs)
  case Nil then show ?case by simp
next
  case (Cons a xs)
  show ?case
  proof (cases "f a")
    case (Inl e')
    from all [OF Inl] have "e' = e" .
    with Inl show ?thesis by simp
  next
    case (Inr y)
    with assms(2) have "x \<noteq> a" by auto
    with Cons.prems have "x \<in> set xs" by simp
    then have "comprehension f xs = Inl e" by (rule Cons.IH)
    with Inr show ?thesis by simp
  qed
qed

lemma array_to_blobproto_error:
  "array_to_blobproto fc arr = Inl e \<Longrightarrow> e = KeyError"
  by (cases "dtype arr") (simp_all add: array_to_blobproto_def ufw_dtype_def dtype_dict_def)

text \<open>
  Claim C7. For every array whose dtype is not one of the eight registered dtypes,
  \<^verbatim>\<open>array_to_blobproto\<close> raises (the registry lookup \<^verbatim>\<open>ufw_dtype[arr.dtype]\<close> fails with a
  KeyError, which is how the unsupported dtype shows) and returns no blob; and
  \<^verbatim>\<open>arraylist_to_blobprotovector_str\<close> over any list containing such an array raises as a
  whole and returns no bytes.
\<close>

theorem unregistered_dtype_fails:
  "\<not> registered (dtype arr) \<Longrightarrow>
     array_to_blobproto fc arr = Inl KeyError \<and>
     (arr \<in> set arraylist \<longrightarrow> arraylist_to_blobprotovector_str fc arraylist = Inl KeyError)"
proof -
  assume u: "\<not> registered (dtype arr)"
  then have a: "array_to_blobproto fc arr = Inl KeyError"
    by (simp add: array_to_blobproto_def registered_iff)
  have "comprehension (array_to_blobproto fc) arraylist = Inl KeyError" if "arr \<in> set arraylist"
    using that a array_to_blobproto_error by (rule comprehension_error)
  then show ?thesis using a by (simp add: arraylist_to_blobprotovector_str_def)
qed

theorem unregistered_dtype_fails_witness:
  "\<not> registered Float64 \<and>
   array_to_blobproto pad_cast \<lparr>dtype = Float64, shape = [1], flat = [[0, 0, 0, 0, 0, 0, 240, 63]]\<rparr>
     = Inl KeyError \<and>
   arraylist_to_blobprotovector_str pad_cast
     [\<lparr>dtype = UInt8, shape = [2], flat = [[1], [2]]\<rparr>,
      \<lparr>dtype = Float64, shape = [1], flat = [[0, 0, 0, 0, 0, 0, 240, 63]]\<rparr>] = Inl KeyError"
  using unregistered_dtype_fails [of "\<lparr>dtype = Float64, shape = [1], flat = [[0, 0, 0, 0, 0, 0, 240, 63]]\<rparr>"
      pad_cast "[\<lparr>dtype = UInt8, shape = [2], flat = [[1], [2]]\<rparr>,
      \<lparr>dtype = Float64, shape = [1], flat = [[0, 0, 0, 0, 0, 0, 240, 63]]\<rparr>]"]
  by (simp add: registered_def dtype_dict_def)

text \<open>
  Claim C8. \<^verbatim>\<open>blobproto_to_array\<close> succeeds exactly when the payload has as many elements
  as the chosen shape, and the chosen shape is the legacy four-field shape
  (num, channels, height, width) whenever any one of these fields is present, whatever
  the dimension list holds; only when none is present is it the dimension list.
\<close>

theorem legacy_shape_precedence:
  "blobproto_to_array fc blob rd = Inr a \<longleftrightarrow>
     (let payload = (if rd then b_diff blob else b_data blob);
          shp = (if b_num blob \<noteq> None \<or> b_channels blob \<noteq> None \<or> b_height blob \<noteq> None
                    \<or> b_width blob \<noteq> None
                 then [field (b_num blob), field (b_channels blob), field (b_height blob),
                       field (b_width blob)]
                 else b_shape blob)
      in prod_list shp = length payload \<and>
         a = \<lparr>dtype = Float64, shape = shp, flat = map (fc Float32 Float64) payload\<rparr>)"
  unfolding blobproto_to_array_def reshape_def np_array_floats_def Let_def
  by (simp split: if_splits) blast

theorem legacy_shape_precedence_witness:
  "blobproto_to_array pad_cast
     (BlobProto\<lparr>b_num := Some 1, b_channels := Some 1, b_height := Some 2, b_width := Some 2,
        b_shape := [4], b_data := [[0, 0, 0, 0], [0, 0, 128, 63], [0, 0, 0, 64], [0, 0, 64, 64]]\<rparr>)
     False =
   Inr \<lparr>dtype = Float64, shape = [1, 1, 2, 2],
        flat = map (pad_cast Float32 Float64)
                 [[0, 0, 0, 0], [0, 0, 128, 63], [0, 0, 0, 64], [0, 0, 64, 64]]\<rparr> \<and>
   blobproto_to_array pad_cast
     (BlobProto\<lparr>b_shape := [2, 2],
        b_data := [[0, 0, 0, 0], [0, 0, 128, 63], [0, 0, 0, 64], [0, 0, 64, 64]]\<rparr>)
     False =
   Inr \<lparr>dtype = Float64, shape = [2, 2],
        flat = map (pad_cast Float32 Float64)
                 [[0, 0, 0, 0], [0, 0, 128, 63], [0, 0, 0, 64], [0, 0, 64, 64]]\<rparr>"
  by (simp add: legacy_shape_precedence BlobProto_def field_def)

text \<open>
  Claim C6, as the code has it. \<^verbatim>\<open>blob_to_array\<close> looks at the float payload when it is
  not empty and at the int payload otherwise. With \<open>n\<close> the length of that payload:
  when no payload is populated it returns nothing and raises nothing, whatever the
  shape; with an empty shape and one element it returns the one-element payload as it
  is; with an empty shape and more elements it raises; with a non-empty shape and a
  populated payload it raises numpy's ValueError when \<open>n\<close> is not the product of the
  dimensions and returns an array of that shape otherwise.
\<close>

theorem blob_to_array_cases:
  "(let n = (if b_data blob \<noteq> [] then length (b_data blob) else length (b_int32_data blob)) in
     (n = 0 \<longrightarrow> blob_to_array fc blob = Inr PyNone) \<and>
     (b_shape blob = [] \<and> n = 1 \<longrightarrow>
        blob_to_array fc blob =
          Inr (if b_data blob \<noteq> [] then RepeatedFloat (b_data blob)
               else RepeatedInt (b_int32_data blob))) \<and>
     (b_shape blob = [] \<and> 1 < n \<longrightarrow> blob_to_array fc blob = Inl Exception) \<and>
     (b_shape blob \<noteq> [] \<and> 0 < n \<and> n \<noteq> prod_list (b_shape blob) \<longrightarrow>
        blob_to_array fc blob = Inl ValueError) \<and>
     (b_shape blob \<noteq> [] \<and> 0 < n \<and> n = prod_list (b_shape blob) \<longrightarrow>
        (\<exists>a. blob_to_array fc blob = Inr (NDArray a) \<and> shape a = b_shape blob
             \<and> length (flat a) = n)))"
  unfolding blob_to_array_def toArray_float_def toArray_int_def reshape_def
      np_array_floats_def Let_def
  by (cases "b_data blob = []") simp_all

theorem blob_to_array_cases_witness:
  "blob_to_array pad_cast (BlobProto\<lparr>b_shape := [3]\<rparr>) = Inr PyNone \<and>
   blob_to_array pad_cast (BlobProto\<lparr>b_int32_data := [42]\<rparr>) = Inr (RepeatedInt [42]) \<and>
   blob_to_array pad_cast (BlobProto\<lparr>b_int32_data := [1, 2]\<rparr>) = Inl Exception \<and>
   blob_to_array pad_cast (BlobProto\<lparr>b_shape := [3], b_int32_data := [1, 2]\<rparr>) = Inl ValueError \<and>
   (\<exists>a. blob_to_array pad_cast (BlobProto\<lparr>b_shape := [2], b_int32_data := [1, 2]\<rparr>)
          = Inr (NDArray a) \<and> shape a = [2] \<and> length (flat a) = 2)"
  using blob_to_array_cases [of "BlobProto\<lparr>b_shape := [3]\<rparr>" pad_cast]
    blob_to_array_cases [of "BlobProto\<lparr>b_int32_data := [42]\<rparr>" pad_cast]
    blob_to_array_cases [of "BlobProto\<lparr>b_int32_data := [1, 2]\<rparr>" pad_cast]
    blob_to_array_cases [of "BlobProto\<lparr>b_shape := [3], b_int32_data := [1, 2]\<rparr>" pad_cast]
    blob_to_array_cases [of "BlobProto\<lparr>b_shape := [2], b_int32_data := [1, 2]\<rparr>" pad_cast]
  by (simp add: BlobProto_def)

theorem blob_to_array_no_payload_counterexample:
  "blob_to_array pad_cast (BlobProto\<lparr>b_shape := [2, 3]\<rparr>) = Inr PyNone"
  by (simp add: blob_to_array_def BlobProto_def)

text \<open>
  Claim C2 on integer arrays. \<^verbatim>\<open>array_to_blobproto\<close> stores an array of one of the six
  integer dtypes in \<^verbatim>\<open>int32_data\<close> and leaves \<^verbatim>\<open>data\<close> empty; \<^verbatim>\<open>blobproto_to_array\<close> reads
  \<^verbatim>\<open>data\<close> only, so for every well-formed integer array with at least one element the
  reshape of the empty payload raises and nothing is decoded.
\<close>

lemma int_blob_decode_fails:
  assumes int: "dtype a = Int8 \<or> dtype a = UInt8 \<or> dtype a = Int16 \<or> dtype a = UInt16
      \<or> dtype a = Int32 \<or> dtype a = UInt32"
    and ne: "flat a \<noteq> []" and wf: "wf_array a"
  shows "arraylist_to_blobprotovector_str fc [a] =
           Inr (Wire [BlobProto\<lparr>b_shape := shape a, b_dtype := ufw_dtype (dtype a),
                                  b_int32_data := map (astype_int32 (dtype a)) (flat a)\<rparr>]) \<and>
         blobprotovector_str_to_arraylist fc
           (Wire [BlobProto\<lparr>b_shape := shape a, b_dtype := ufw_dtype (dtype a),
                                  b_int32_data := map (astype_int32 (dtype a)) (flat a)\<rparr>]) =
           Inl ValueError"
proof
  have "array_to_blobproto fc a =
      Inr (BlobProto\<lparr>b_shape := shape a, b_dtype := ufw_dtype (dtype a),
                       b_int32_data := map (astype_int32 (dtype a)) (flat a)\<rparr>)"
    using int by (elim disjE) (simp_all add: array_to_blobproto_def ufw_dtype_def dtype_dict_def)
  then show "arraylist_to_blobprotovector_str fc [a] =
           Inr (Wire [BlobProto\<lparr>b_shape := shape a, b_dtype := ufw_dtype (dtype a),
                                  b_int32_data := map (astype_int32 (dtype a)) (flat a)\<rparr>])"
    by (simp add: arraylist_to_blobprotovector_str_def SerializeToString_def)
  from ne have "length (flat a) \<noteq> 0" by simp
  moreover from wf have "length (flat a) = prod_list (shape a)" by (simp add: wf_array_def)
  ultimately have "prod_list (shape a) \<noteq> 0" by metis
  then have "blobproto_to_array fc
      (BlobProto\<lparr>b_shape := shape a, b_dtype := ufw_dtype (dtype a),
                  b_int32_data := map (astype_int32 (dtype a)) (flat a)\<rparr>) False = Inl ValueError"
    by (simp add: blobproto_to_array_def BlobProto_def reshape_def np_array_floats_def)
  then show "blobprotovector_str_to_arraylist fc
           (Wire [BlobProto\<lparr>b_shape := shape a, b_dtype := ufw_dtype (dtype a),
                                  b_int32_data := map (astype_int32 (dtype a)) (flat a)\<rparr>]) =
           Inl ValueError"
    by (simp add: blobprotovector_str_to_arraylist_def)
qed

text \<open>
  Claim C2 at a concrete call: the list holding the one int32 array \<open>[7]\<close>. Encoding
  succeeds; decoding the bytes raises ValueError, while the claim says it yields the
  array back.
\<close>

theorem blob_vector_int32_not_decoded:
  "arraylist_to_blobprotovector_str pad_cast
      [\<lparr>dtype = Int32, shape = [1], flat = [[7, 0, 0, 0]]\<rparr>] =
     Inr (Wire [BlobProto\<lparr>b_shape := [1], b_dtype := Some INT32, b_int32_data := [7]\<rparr>]) \<and>
   blobprotovector_str_to_arraylist pad_cast
      (Wire [BlobProto\<lparr>b_shape := [1], b_dtype := Some INT32, b_int32_data := [7]\<rparr>]) =
     Inl ValueError"
proof
  have v: "astype_int32 Int32 [7, 0, 0, 0] = 7"
    by (simp add: astype_int32_def signed_of_def le_nat_def)
  show "arraylist_to_blobprotovector_str pad_cast
      [\<lparr>dtype = Int32, shape = [1], flat = [[7, 0, 0, 0]]\<rparr>] =
     Inr (Wire [BlobProto\<lparr>b_shape := [1], b_dtype := Some INT32, b_int32_data := [7]\<rparr>])"
    by (simp add: arraylist_to_blobprotovector_str_def array_to_blobproto_def ufw_dtype_def
        dtype_dict_def SerializeToString_def v)
  show "blobprotovector_str_to_arraylist pad_cast
      (Wire [BlobProto\<lparr>b_shape := [1], b_dtype := Some INT32, b_int32_data := [7]\<rparr>]) =
     Inl ValueError"
    by (simp add: blobprotovector_str_to_arraylist_def blobproto_to_array_def BlobProto_def
        reshape_def np_array_floats_def)
qed

section \<open>Properties of the Datum conversion\<close>


lemma array_to_datum_raw:
  assumes "ufw_dtype (dtype a) = Some t" and "dtype a \<noteq> Float32"
    and "shape a \<noteq> [] \<or> itemsize (dtype a) = 1" and "label_fits lb l"
  shows "array_to_datum lb a l =
     Inr \<lparr>d_shape = Some (shape a), d_channels = None, d_height = None, d_width = None,
          d_data = concat (flat a), d_float_data = [], d_dtype = t, d_label = l\<rparr>"
proof -
  from assms(3) have "view_uint8_tostring a = Inr (concat (flat a))"
    by (auto simp: view_uint8_tostring_def)
  with assms(1,2,4) show ?thesis by (simp add: array_to_datum_def)
qed

lemma array_to_datum_label_range:
  assumes "\<not> label_fits lb l"
  shows "\<exists>e. array_to_datum lb a l = Inl e"
  using assms
  by (simp add: array_to_datum_def view_uint8_tostring_def split: sum.splits option.splits)


lemma datum_to_array_floats:
  assumes "length xs = prod_list shp"
  shows "datum_to_array fc \<lparr>d_shape = Some shp, d_channels = c, d_height = h, d_width = w,
          d_data = [], d_float_data = xs, d_dtype = t, d_label = l\<rparr> =
     Inr \<lparr>dtype = Float32, shape = shp,
          flat = map (fc Float64 Float32) (map (fc Float32 Float64) xs)\<rparr>"
  using assms by (simp add: datum_to_array_def np_array_floats_def reshape_def)





text \<open>
  Claim C10. For every well-formed array with no element, of a registered dtype other
  than float32, encoded with no label or with a label within the label field's range,
  \<^verbatim>\<open>array_to_datum\<close> succeeds and \<^verbatim>\<open>datum_to_array\<close> of the result is the empty float32
  array of the same shape: the empty byte string sends the decoder to the float branch
  and the dtype is not recovered.
\<close>

theorem empty_array_decodes_as_float32:
  assumes wf: "wf_array a" and empty: "flat a = []" and reg: "registered (dtype a)"
    and nf: "dtype a \<noteq> Float32" and fits: "label_fits lb l"
  shows "\<exists>d. array_to_datum lb a l = Inr d \<and>
              datum_to_array fc d = Inr \<lparr>dtype = Float32, shape = shape a, flat = []\<rparr>"
proof -
  from reg obtain t where t: "ufw_dtype (dtype a) = Some t" by (auto simp: registered_iff)
  let ?d = "\<lparr>d_shape = Some (shape a), d_channels = None, d_height = None, d_width = None,
          d_data = concat (flat a), d_float_data = [], d_dtype = t, d_label = l\<rparr>"
  from wf empty have p: "prod_list (shape a) = 0" by (simp add: wf_array_def)
  then have "shape a \<noteq> []" by auto
  then have "shape a \<noteq> [] \<or> itemsize (dtype a) = 1" ..
  with t nf have enc: "array_to_datum lb a l = Inr ?d" using fits by (rule array_to_datum_raw)
  have "length ([] :: float32 list) = prod_list (shape a)" using p by simp
  then have "datum_to_array fc \<lparr>d_shape = Some (shape a), d_channels = None, d_height = None,
          d_width = None, d_data = [], d_float_data = [], d_dtype = t, d_label = l\<rparr> =
      Inr \<lparr>dtype = Float32, shape = shape a,
          flat = map (fc Float64 Float32) (map (fc Float32 Float64) [])\<rparr>"
    by (rule datum_to_array_floats)
  then have dec: "datum_to_array fc ?d = Inr \<lparr>dtype = Float32, shape = shape a, flat = []\<rparr>"
    using empty by simp
  from enc dec show ?thesis by blast
qed

theorem empty_array_decodes_as_float32_witness:
  "\<exists>d. array_to_datum 32 \<lparr>dtype = Int32, shape = [2, 0], flat = []\<rparr> None = Inr d \<and>
        datum_to_array pad_cast d = Inr \<lparr>dtype = Float32, shape = [2, 0], flat = []\<rparr>"
  using empty_array_decodes_as_float32
    [of "\<lparr>dtype = Int32, shape = [2, 0], flat = []\<rparr>" 32 None pad_cast]
  by (simp add: wf_array_def registered_def dtype_dict_def label_fits_def)

section \<open>Properties of the writer\<close>

lemma replicate_numeral: "replicate (numeral k) x = x # replicate (pred_numeral k) x"
  by (simp add: numeral_eq_Suc)

text \<open>
  Claim C3 at a concrete call (the label field taken as 32 bits wide). \<^verbatim>\<open>put\<close> of two
  one-byte arrays with the single shared label 7, on a fresh writer with flush threshold
  100: the key list grows by two keys,
  but \<^verbatim>\<open>put_datum\<close> turns the label into the one-element list \<^verbatim>\<open>[labels]\<close> and \<^verbatim>\<open>zip\<close>
  stops after the first array, so the value list grows by one value only.
\<close>

theorem put_shared_label_two_arrays:
  "put 32 (\<lambda>r. 1) 1
     (Arrays [\<lparr>dtype = UInt8, shape = [1], flat = [[1]]\<rparr>,
              \<lparr>dtype = UInt8, shape = [1], flat = [[2]]\<rparr>])
     (IntLabel 7) NoKeys
     (LMDB_Dataset \<lparr>committed = [], map_size = 0\<rparr> 100 1000) =
   Some (Inr \<lparr>db = \<lparr>committed = [], map_size = 1000\<rparr>, txn = [], queue_size = 100, index = 2,
      value_list =
        [Wire \<lparr>d_shape = Some [1], d_channels = None, d_height = None, d_width = None,
               d_data = [1], d_float_data = [], d_dtype = UINT8, d_label = Some 7\<rparr>],
      key_list = [''0000000000__ '', ''0000000001__ '']\<rparr>)"
  by (simp add: put_def LMDB_Dataset_def put_datum_def array_to_datum_def
      view_uint8_tostring_def ufw_dtype_def dtype_dict_def SerializeToString_def
      DB_KEY_FORMAT_def dec.simps digit_char_def replicate_numeral label_fits_def)

text \<open>
  Claim C5 at concrete calls, with two arrays. With one label, \<^verbatim>\<open>put_datum\<close> raises
  IndexError after \<^verbatim>\<open>put\<close> has already extended the key list by two keys; the value
  list and the index are as before. With three labels the call succeeds and buffers
  two records. With one key for two arrays the assertion fails before anything is
  buffered.
\<close>

theorem put_label_count_mismatch:
  "put 32 (\<lambda>r. 1) 1
     (Arrays [\<lparr>dtype = UInt8, shape = [1], flat = [[1]]\<rparr>,
              \<lparr>dtype = UInt8, shape = [1], flat = [[2]]\<rparr>])
     (LabelSeq [5]) NoKeys
     (LMDB_Dataset \<lparr>committed = [], map_size = 0\<rparr> 100 1000) =
   Some (Inl (IndexError,
      \<lparr>db = \<lparr>committed = [], map_size = 1000\<rparr>, txn = [], queue_size = 100, index = 0,
       value_list = [], key_list = [''0000000000__ '', ''0000000001__ '']\<rparr>)) \<and>
   put 32 (\<lambda>r. 1) 1
     (Arrays [\<lparr>dtype = UInt8, shape = [1], flat = [[1]]\<rparr>,
              \<lparr>dtype = UInt8, shape = [1], flat = [[2]]\<rparr>])
     (LabelSeq [5, 6, 7]) NoKeys
     (LMDB_Dataset \<lparr>committed = [], map_size = 0\<rparr> 100 1000) =
   Some (Inr \<lparr>db = \<lparr>committed = [], map_size = 1000\<rparr>, txn = [], queue_size = 100, index = 2,
      value_list =
        [Wire \<lparr>d_shape = Some [1], d_channels = None, d_height = None, d_width = None,
               d_data = [1], d_float_data = [], d_dtype = UINT8, d_label = Some 5\<rparr>,
         Wire \<lparr>d_shape = Some [1], d_channels = None, d_height = None, d_width = None,
               d_data = [2], d_float_data = [], d_dtype = UINT8, d_label = Some 6\<rparr>],
      key_list = [''0000000000__ '', ''0000000001__ '']\<rparr>) \<and>
   put 32 (\<lambda>r. 1) 1
     (Arrays [\<lparr>dtype = UInt8, shape = [1], flat = [[1]]\<rparr>,
              \<lparr>dtype = UInt8, shape = [1], flat = [[2]]\<rparr>])
     NoLabels (KeySeq [''x''])
     (LMDB_Dataset \<lparr>committed = [], map_size = 0\<rparr> 100 1000) =
   Some (Inl (AssertionError, LMDB_Dataset \<lparr>committed = [], map_size = 0\<rparr> 100 1000))"
  by (simp add: put_def LMDB_Dataset_def put_datum_def array_to_datum_def
      view_uint8_tostring_def ufw_dtype_def dtype_dict_def SerializeToString_def
      DB_KEY_FORMAT_def dec.simps digit_char_def replicate_numeral label_fits_def)

lemma last_key_less:
  fixes recs :: "(key \<times> val) list"
  assumes "sorted_wrt (<) (map fst (recs @ [(k, v)]))" and "recs \<noteq> []"
  shows "fst (last recs) < k"
proof -
  from assms(2) have "last recs \<in> set recs" by simp
  moreover from assms(1) have "\<forall>x\<in>set recs. fst x < k"
    by (simp add: sorted_wrt_append)
  ultimately show ?thesis by blast
qed

lemma key_le_last:
  fixes recs :: "(key \<times> val) list"
  assumes "sorted_wrt (<) (map fst recs)" and "r \<in> set recs"
  shows "fst r \<le> fst (last recs)"
  using assms
proof (induction recs)
  case Nil then show ?case by simp
next
  case (Cons a recs)
  show ?case
  proof (cases "recs = []")
    case True with Cons.prems show ?thesis by simp
  next
    case False
    from Cons.prems(1) have s: "sorted_wrt (<) (map fst recs)" and lt: "\<forall>x\<in>set recs. fst a < fst x"
      by simp_all
    from False have l: "last recs \<in> set recs" by simp
    show ?thesis
    proof (cases "r = a")
      case True
      with lt l have "fst r < fst (last recs)" by blast
      with False show ?thesis by simp
    next
      case r: False
      with Cons.prems(2) have "r \<in> set recs" by simp
      with s have "fst r \<le> fst (last recs)" by (rule Cons.IH)
      with False show ?thesis by simp
    qed
  qed
qed

lemma txn_put_stored:
  assumes "key_ok k"
    and "sorted_wrt (<) (map fst (committed e @ t @ [(k, v)]))"
    and "used sz (committed e @ t @ [(k, v)]) \<le> map_size e"
  shows "txn_put sz e t k v = Inr (True, t @ [(k, v)])"
proof -
  have "\<not> k \<le> fst (last (committed e @ t))" if "committed e @ t \<noteq> []"
  proof -
    from assms(2) have "sorted_wrt (<) (map fst ((committed e @ t) @ [(k, v)]))" by simp
    from this that have "fst (last (committed e @ t)) < k" by (rule last_key_less)
    then show ?thesis by simp
  qed
  with assms(1,3) show ?thesis unfolding txn_put_def Let_def by auto
qed

lemma txn_put_full:
  assumes "key_ok k"
    and "sorted_wrt (<) (map fst (committed e @ t @ [(k, v)]))"
    and "map_size e < used sz (committed e @ t @ [(k, v)])"
  shows "txn_put sz e t k v = Inl MapFullError"
proof -
  have "\<not> k \<le> fst (last (committed e @ t))" if "committed e @ t \<noteq> []"
  proof -
    from assms(2) have "sorted_wrt (<) (map fst ((committed e @ t) @ [(k, v)]))" by simp
    from this that have "fst (last (committed e @ t)) < k" by (rule last_key_less)
    then show ?thesis by simp
  qed
  with assms(1,3) show ?thesis unfolding txn_put_def Let_def by auto
qed

lemma txn_put_exists:
  assumes "key_ok k" and "committed e @ t \<noteq> []" and "k \<le> fst (last (committed e @ t))"
  shows "txn_put sz e t k v = Inr (False, t)"
  using assms unfolding txn_put_def Let_def by simp

lemma sorted_wrt_prefix: "sorted_wrt P (xs @ ys) \<Longrightarrow> sorted_wrt P xs"
  by (simp add: sorted_wrt_append)

lemma put_loop_fits:
  assumes "\<forall>r\<in>set recs. key_ok (fst r)"
    and "sorted_wrt (<) (map fst (committed (db w) @ txn w @ recs))"
    and "used sz (committed (db w) @ txn w @ recs) \<le> map_size (db w)"
  shows "put_loop sz n recs w = Some (Inr (w\<lparr>txn := txn w @ recs\<rparr>))"
  using assms
proof (induction recs arbitrary: w)
  case Nil
  show ?case by simp
next
  case (Cons r recs)
  obtain k v where r: "r = (k, v)" by (cases r)
  let ?w' = "w\<lparr>txn := txn w @ [(k, v)]\<rparr>"
  from Cons.prems(1) r have ok: "key_ok k" by simp
  from Cons.prems(2) r
  have s: "sorted_wrt (<) (map fst (committed (db w) @ txn w @ [(k, v)]) @ map fst recs)"
    by simp
  then have s1: "sorted_wrt (<) (map fst (committed (db w) @ txn w @ [(k, v)]))"
    by (rule sorted_wrt_prefix)
  from Cons.prems(3) r have u1: "used sz (committed (db w) @ txn w @ [(k, v)]) \<le> map_size (db w)"
    by (simp add: used_def)
  have "txn_put sz (db w) (txn w) k v = Inr (True, txn w @ [(k, v)])"
    using ok s1 u1 by (rule txn_put_stored)
  then have kv: "put_kv sz k v w = Inr (True, ?w')" by (simp add: put_kv_def)
  have "put_loop sz n recs ?w' = Some (Inr (?w'\<lparr>txn := txn ?w' @ recs\<rparr>))"
  proof (rule Cons.IH)
    show "\<forall>r\<in>set recs. key_ok (fst r)" using Cons.prems(1) by simp
    show "sorted_wrt (<) (map fst (committed (db ?w') @ txn ?w' @ recs))"
      using Cons.prems(2) r by simp
    show "used sz (committed (db ?w') @ txn ?w' @ recs) \<le> map_size (db ?w')"
      using Cons.prems(3) r by simp
  qed
  then show ?case using kv r by simp
qed

lemma put_loop_rejected:
  assumes "committed (db w) @ txn w \<noteq> []"
    and "\<forall>r\<in>set recs. key_ok (fst r) \<and> fst r \<le> fst (last (committed (db w) @ txn w))"
  shows "put_loop sz n recs w = Some (Inr w)"
  using assms(2)
proof (induction recs)
  case Nil
  show ?case by simp
next
  case (Cons r recs)
  obtain k v where r: "r = (k, v)" by (cases r)
  with Cons.prems have ok: "key_ok k" and le: "k \<le> fst (last (committed (db w) @ txn w))"
    by simp_all
  from ok assms(1) le have "txn_put sz (db w) (txn w) k v = Inr (False, txn w)"
    by (rule txn_put_exists)
  then have kv: "put_kv sz k v w = Inr (True, w)" by (simp add: put_kv_def)
  from Cons.prems
  have "\<forall>r\<in>set recs. key_ok (fst r) \<and> fst r \<le> fst (last (committed (db w) @ txn w))"
    by simp
  then have "put_loop sz n recs w = Some (Inr w)" by (rule Cons.IH)
  with kv r show ?case by simp
qed

lemma put_loop_retry:
  assumes "\<forall>r\<in>set recs. key_ok (fst r)"
    and "sorted_wrt (<) (map fst (committed (db w) @ txn w @ recs))"
    and "used sz (committed (db w) @ txn w) \<le> map_size (db w)"
    and "map_size (db w) < used sz (committed (db w) @ txn w @ recs)"
    and "put_batch sz n (w\<lparr>db := (db w)\<lparr>map_size := map_size (db w) * 2\<rparr>, txn := []\<rparr>)
           = Some (Inr w2)"
    and "committed (db w2) @ txn w2 \<noteq> []"
    and "\<forall>r\<in>set recs. fst r \<le> fst (last (committed (db w2) @ txn w2))"
  shows "put_loop sz n recs w = Some (Inr w2)"
  using assms(1,2,3,4,5,7)
proof (induction recs arbitrary: w)
  case Nil
  then show ?case by simp
next
  case (Cons r recs)
  obtain k v where r: "r = (k, v)" by (cases r)
  let ?w' = "w\<lparr>txn := txn w @ [(k, v)]\<rparr>"
  let ?w1 = "w\<lparr>db := (db w)\<lparr>map_size := map_size (db w) * 2\<rparr>, txn := []\<rparr>"
  from Cons.prems(1) r have ok: "key_ok k" and oks: "\<forall>r\<in>set recs. key_ok (fst r)" by simp_all
  from Cons.prems(2) r
  have s: "sorted_wrt (<) (map fst (committed (db w) @ txn w @ [(k, v)]) @ map fst recs)"
    by simp
  then have s1: "sorted_wrt (<) (map fst (committed (db w) @ txn w @ [(k, v)]))"
    by (rule sorted_wrt_prefix)
  from Cons.prems(6) have rest: "\<forall>r\<in>set recs. fst r \<le> fst (last (committed (db w2) @ txn w2))"
    by simp
  show ?case
  proof (cases "used sz (committed (db w) @ txn w @ [(k, v)]) \<le> map_size (db w)")
    case True
    have "txn_put sz (db w) (txn w) k v = Inr (True, txn w @ [(k, v)])"
      using ok s1 True by (rule txn_put_stored)
    then have kv: "put_kv sz k v w = Inr (True, ?w')" by (simp add: put_kv_def)
    have "put_loop sz n recs ?w' = Some (Inr w2)"
    proof (rule Cons.IH)
      show "\<forall>r\<in>set recs. key_ok (fst r)" by (rule oks)
      show "sorted_wrt (<) (map fst (committed (db ?w') @ txn ?w' @ recs))"
        using Cons.prems(2) r by simp
      show "used sz (committed (db ?w') @ txn ?w') \<le> map_size (db ?w')"
        using True by simp
      show "map_size (db ?w') < used sz (committed (db ?w') @ txn ?w' @ recs)"
        using Cons.prems(4) r by simp
      show "put_batch sz n (?w'\<lparr>db := (db ?w')\<lparr>map_size := map_size (db ?w') * 2\<rparr>, txn := []\<rparr>)
          = Some (Inr w2)"
        using Cons.prems(5) by simp
      show "\<forall>r\<in>set recs. fst r \<le> fst (last (committed (db w2) @ txn w2))" by (rule rest)
    qed
    with kv r show ?thesis by simp
  next
    case False
    then have "map_size (db w) < used sz (committed (db w) @ txn w @ [(k, v)])" by simp
    with ok s1 have "txn_put sz (db w) (txn w) k v = Inl MapFullError" by (rule txn_put_full)
    then have kv: "put_kv sz k v w = Inr (False, ?w1)" by (simp add: put_kv_def)
    from oks rest
    have "\<forall>r\<in>set recs. key_ok (fst r) \<and> fst r \<le> fst (last (committed (db w2) @ txn w2))"
      by blast
    with assms(6) have "put_loop sz n recs w2 = Some (Inr w2)" by (rule put_loop_rejected)
    with kv r Cons.prems(5) show ?thesis by simp
  qed
qed

lemma put_batch_doublings:
  assumes "txn w = []" and "length (key_list w) = length (value_list w)"
    and "\<forall>k\<in>set (key_list w). key_ok k"
    and "sorted_wrt (<) (map fst (committed (db w) @ zip (key_list w) (value_list w)))"
    and "used sz (committed (db w)) \<le> map_size (db w)"
    and "used sz (committed (db w) @ zip (key_list w) (value_list w)) \<le> map_size (db w) * 2 ^ d"
    and "\<forall>d'<d. map_size (db w) * 2 ^ d'
            < used sz (committed (db w) @ zip (key_list w) (value_list w))"
    and "d < n"
  shows "put_batch sz n w =
     Some (Inr (w\<lparr>db := (db w)\<lparr>committed := committed (db w) @ zip (key_list w) (value_list w),
                                map_size := map_size (db w) * 2 ^ d\<rparr>,
                  txn := [], value_list := [], key_list := []\<rparr>))"
  using assms
proof (induction d arbitrary: w n)
  case 0
  from \<open>0 < n\<close> obtain m where n: "n = Suc m" by (cases n) auto
  let ?B = "zip (key_list w) (value_list w)"
  have oks: "\<forall>r\<in>set ?B. key_ok (fst r)"
    using "0.prems"(3) by (auto dest: set_zip_leftD)
  show ?case
  proof (cases "key_list w = []")
    case True
    with "0.prems"(2) have "value_list w = []" by simp
    with True "0.prems"(1) n show ?thesis by simp
  next
    case False
    have "put_loop sz m ?B w = Some (Inr (w\<lparr>txn := txn w @ ?B\<rparr>))"
    proof (rule put_loop_fits)
      show "\<forall>r\<in>set ?B. key_ok (fst r)" by (rule oks)
      show "sorted_wrt (<) (map fst (committed (db w) @ txn w @ ?B))"
        using "0.prems"(1,4) by simp
      show "used sz (committed (db w) @ txn w @ ?B) \<le> map_size (db w)"
        using "0.prems"(1,6) by simp
    qed
    with False n "0.prems"(1) show ?thesis by simp
  qed
next
  case (Suc d)
  from \<open>Suc d < n\<close> obtain m where n: "n = Suc m" and dm: "d < m" by (cases n) auto
  let ?C = "committed (db w)"
  let ?B = "zip (key_list w) (value_list w)"
  let ?w1 = "w\<lparr>db := (db w)\<lparr>map_size := map_size (db w) * 2\<rparr>, txn := []\<rparr>"
  let ?w2 = "w\<lparr>db := (db w)\<lparr>committed := ?C @ ?B, map_size := map_size (db w) * 2 ^ Suc d\<rparr>,
               txn := [], value_list := [], key_list := []\<rparr>"
  have oks: "\<forall>r\<in>set ?B. key_ok (fst r)"
    using Suc.prems(3) by (auto dest: set_zip_leftD)
  from Suc.prems(7) have "map_size (db w) * 2 ^ 0 < used sz (?C @ ?B)" by blast
  then have nofit: "map_size (db w) < used sz (?C @ ?B)" by simp
  with Suc.prems(5) have Bne: "?B \<noteq> []" by auto
  then have ne: "key_list w \<noteq> []" by auto
  have "put_batch sz m ?w1 =
     Some (Inr (?w1\<lparr>db := (db ?w1)\<lparr>committed := committed (db ?w1)
                                  @ zip (key_list ?w1) (value_list ?w1),
                           map_size := map_size (db ?w1) * 2 ^ d\<rparr>,
             txn := [], value_list := [], key_list := []\<rparr>))"
  proof (rule Suc.IH)
    show "txn ?w1 = []" by simp
    show "length (key_list ?w1) = length (value_list ?w1)" using Suc.prems(2) by simp
    show "\<forall>k\<in>set (key_list ?w1). key_ok k" using Suc.prems(3) by simp
    show "sorted_wrt (<) (map fst (committed (db ?w1) @ zip (key_list ?w1) (value_list ?w1)))"
      using Suc.prems(4) by simp
    show "used sz (committed (db ?w1)) \<le> map_size (db ?w1)" using Suc.prems(5) by simp
    show "used sz (committed (db ?w1) @ zip (key_list ?w1) (value_list ?w1))
        \<le> map_size (db ?w1) * 2 ^ d"
      using Suc.prems(6) by (simp add: mult.assoc)
    show "\<forall>d'<d. map_size (db ?w1) * 2 ^ d'
        < used sz (committed (db ?w1) @ zip (key_list ?w1) (value_list ?w1))"
    proof (intro allI impI)
      fix d' assume "d' < d"
      then have "Suc d' < Suc d" by simp
      with Suc.prems(7) have "map_size (db w) * 2 ^ Suc d' < used sz (?C @ ?B)" by blast
      then show "map_size (db ?w1) * 2 ^ d'
        < used sz (committed (db ?w1) @ zip (key_list ?w1) (value_list ?w1))"
        by (simp add: mult.assoc)
    qed
    show "d < m" by (rule dm)
  qed
  then have rec: "put_batch sz m ?w1 = Some (Inr ?w2)" by (simp add: mult.assoc)
  have "put_loop sz m ?B w = Some (Inr ?w2)"
  proof (rule put_loop_retry)
    show "\<forall>r\<in>set ?B. key_ok (fst r)" by (rule oks)
    show "sorted_wrt (<) (map fst (committed (db w) @ txn w @ ?B))"
      using Suc.prems(1,4) by simp
    show "used sz (committed (db w) @ txn w) \<le> map_size (db w)"
      using Suc.prems(1,5) by simp
    show "map_size (db w) < used sz (committed (db w) @ txn w @ ?B)"
      using Suc.prems(1) nofit by simp
    show "put_batch sz m ?w1 = Some (Inr ?w2)" by (rule rec)
    show "committed (db ?w2) @ txn ?w2 \<noteq> []" using Bne by simp
    show "\<forall>r\<in>set ?B. fst r \<le> fst (last (committed (db ?w2) @ txn ?w2))"
    proof
      fix r assume "r \<in> set ?B"
      then have "r \<in> set (?C @ ?B)" by simp
      with Suc.prems(4) have "fst r \<le> fst (last (?C @ ?B))" by (rule key_le_last)
      then show "fst r \<le> fst (last (committed (db ?w2) @ txn ?w2))" by simp
    qed
  qed
  with ne n show ?case by simp
qed

lemma put_batch_returns:
  assumes pos: "0 < map_size (db w)" and txn: "txn w = []"
    and len: "length (key_list w) = length (value_list w)"
    and keys: "\<forall>k\<in>set (key_list w). key_ok k"
    and sorted: "sorted_wrt (<) (map fst (committed (db w)) @ key_list w)"
    and fits: "used sz (committed (db w)) \<le> map_size (db w)"
  shows "\<exists>d. (\<forall>n>d. put_batch sz n w =
                  Some (Inr (w\<lparr>db := (db w)\<lparr>committed := committed (db w)
                                                @ zip (key_list w) (value_list w),
                                             map_size := map_size (db w) * 2 ^ d\<rparr>,
                               txn := [], value_list := [], key_list := []\<rparr>))) \<and>
              used sz (committed (db w) @ zip (key_list w) (value_list w))
                \<le> map_size (db w) * 2 ^ d \<and>
              (\<forall>d'<d. map_size (db w) * 2 ^ d'
                 < used sz (committed (db w) @ zip (key_list w) (value_list w)))"
proof -
  let ?U = "used sz (committed (db w) @ zip (key_list w) (value_list w))"
  from len sorted
  have s: "sorted_wrt (<) (map fst (committed (db w) @ zip (key_list w) (value_list w)))"
    by simp
  have "?U < 2 ^ ?U" by (rule less_exp)
  also have "\<dots> \<le> map_size (db w) * 2 ^ ?U" using pos by simp
  finally have "\<exists>d. ?U \<le> map_size (db w) * 2 ^ d" by (intro exI less_imp_le)
  then obtain d where d: "?U \<le> map_size (db w) * 2 ^ d"
    and least: "\<forall>d'<d. \<not> ?U \<le> map_size (db w) * 2 ^ d'"
    unfolding exists_least_iff [of "\<lambda>d. ?U \<le> map_size (db w) * 2 ^ d"] by blast
  from least have least': "\<forall>d'<d. map_size (db w) * 2 ^ d' < ?U" by (simp add: not_le)
  have "\<forall>n>d. put_batch sz n w =
                  Some (Inr (w\<lparr>db := (db w)\<lparr>committed := committed (db w)
                                                @ zip (key_list w) (value_list w),
                                             map_size := map_size (db w) * 2 ^ d\<rparr>,
                               txn := [], value_list := [], key_list := []\<rparr>))"
  proof (intro allI impI)
    fix n assume "d < n"
    with txn len keys s fits d least' show "put_batch sz n w =
                  Some (Inr (w\<lparr>db := (db w)\<lparr>committed := committed (db w)
                                                @ zip (key_list w) (value_list w),
                                             map_size := map_size (db w) * 2 ^ d\<rparr>,
                               txn := [], value_list := [], key_list := []\<rparr>))"
      by (rule put_batch_doublings)
  qed
  with d least' show ?thesis by blast
qed

text \<open>
  Claim C1, as the code has it. Take a writer whose store has a positive map size and
  holds its committed records within it, whose open transaction is empty, and whose
  buffer holds K keys and K values, the keys of a length the store takes (1 to 511
  bytes), strictly increasing and greater than every key already committed. Then a write
  that meets a capacity error aborts the transaction, doubles the map size and opens a
  new transaction (the first conjunct), and the flush returns: with \<open>d\<close> the least number
  of doublings after which the committed records and the whole batch fit, every call
  with recursion depth above \<open>d\<close> ends with the K buffered records appended once each,
  in order, to the committed records, the map size doubled \<open>d\<close> times, and the
  transaction and the buffer empty.
\<close>

theorem flush_commits_batch_once:
  assumes pos: "0 < map_size (db w)" and txn: "txn w = []"
    and len: "length (key_list w) = length (value_list w)"
    and keys: "\<forall>k\<in>set (key_list w). key_ok k"
    and sorted: "sorted_wrt (<) (map fst (committed (db w)) @ key_list w)"
    and fits: "used sz (committed (db w)) \<le> map_size (db w)"
  shows "(\<forall>w' k v. txn_put sz (db w') (txn w') k v = Inl MapFullError \<longrightarrow>
            put_kv sz k v w' =
              Inr (False, w'\<lparr>db := (db w')\<lparr>map_size := map_size (db w') * 2\<rparr>, txn := []\<rparr>)) \<and>
         (\<exists>d. (\<forall>n>d. put_batch sz n w =
                  Some (Inr (w\<lparr>db := (db w)\<lparr>committed := committed (db w)
                                                @ zip (key_list w) (value_list w),
                                             map_size := map_size (db w) * 2 ^ d\<rparr>,
                               txn := [], value_list := [], key_list := []\<rparr>))) \<and>
              used sz (committed (db w) @ zip (key_list w) (value_list w))
                \<le> map_size (db w) * 2 ^ d \<and>
              (\<forall>d'<d. map_size (db w) * 2 ^ d'
                 < used sz (committed (db w) @ zip (key_list w) (value_list w))))"
proof (intro conjI)
  show "\<forall>w' k v. txn_put sz (db w') (txn w') k v = Inl MapFullError \<longrightarrow>
            put_kv sz k v w' =
              Inr (False, w'\<lparr>db := (db w')\<lparr>map_size := map_size (db w') * 2\<rparr>, txn := []\<rparr>)"
    by (simp add: put_kv_def)
next
  from assms show "\<exists>d. (\<forall>n>d. put_batch sz n w =
                  Some (Inr (w\<lparr>db := (db w)\<lparr>committed := committed (db w)
                                                @ zip (key_list w) (value_list w),
                                             map_size := map_size (db w) * 2 ^ d\<rparr>,
                               txn := [], value_list := [], key_list := []\<rparr>))) \<and>
              used sz (committed (db w) @ zip (key_list w) (value_list w))
                \<le> map_size (db w) * 2 ^ d \<and>
              (\<forall>d'<d. map_size (db w) * 2 ^ d'
                 < used sz (committed (db w) @ zip (key_list w) (value_list w)))"
    by (rule put_batch_returns)
qed

theorem flush_commits_batch_once_witness:
  "\<exists>d. (\<forall>n>d. put_batch unit_size n
              \<lparr>db = \<lparr>committed = [(''a'', sample_value)], map_size = 1\<rparr>, txn = [],
               queue_size = 100, index = 2, value_list = [sample_value, sample_value],
               key_list = [''b'', ''c'']\<rparr> =
            Some (Inr \<lparr>db = \<lparr>committed = [(''a'', sample_value), (''b'', sample_value),
                                            (''c'', sample_value)],
                             map_size = 2 ^ d\<rparr>,
                       txn = [], queue_size = 100, index = 2, value_list = [],
                       key_list = []\<rparr>)) \<and>
        3 \<le> (2::nat) ^ d \<and> (\<forall>d'<d. (2::nat) ^ d' < 3)"
  using flush_commits_batch_once
    [of "\<lparr>db = \<lparr>committed = [(''a'', sample_value)], map_size = 1\<rparr>, txn = [],
               queue_size = 100, index = 2, value_list = [sample_value, sample_value],
               key_list = [''b'', ''c'']\<rparr>" unit_size]
  by (simp add: used_def unit_size_def numeral_3_eq_3 key_ok_def max_key_size_def)

text \<open>The same flush run step by step: the write of \<open>''b''\<close> fails twice, the map size
  goes from 1 to 4, and the store ends with the three records, each once.\<close>

lemma flush_example:
  "put_batch unit_size 3
     \<lparr>db = \<lparr>committed = [(''a'', sample_value)], map_size = 1\<rparr>, txn = [],
      queue_size = 100, index = 2, value_list = [sample_value, sample_value],
      key_list = [''b'', ''c'']\<rparr> =
   Some (Inr \<lparr>db = \<lparr>committed = [(''a'', sample_value), (''b'', sample_value),
                                   (''c'', sample_value)],
                    map_size = 4\<rparr>,
              txn = [], queue_size = 100, index = 2, value_list = [], key_list = []\<rparr>)"
  by (simp add: numeral_3_eq_3 put_kv_def txn_put_def used_def unit_size_def key_ok_def
      max_key_size_def)

text \<open>
  Claim C1 does not hold for every writer. \<^verbatim>\<open>LMDB_Dataset\<close> starts its index at 0 also on
  a store that already holds records, and \<^verbatim>\<open>_put\<close> does not look at what
  \<^verbatim>\<open>txn.put(append=True)\<close> returns. A writer opened with map size 2 on a store that holds
  the keys of the indices 0 and 1 buffers three one-byte arrays under the keys of the
  indices 0, 1 and 2. In \<^verbatim>\<open>close\<close> the first two writes are rejected (their keys are not
  above the last key of the store), the third meets the capacity error, the map size is
  doubled to 4 and the batch rewritten: the flush returns, and of the three buffered
  records only the third is in the store.
\<close>

theorem flush_reopened_store_counterexample:
  "put 32 unit_size 2 (Arrays [byte_array 5, byte_array 6, byte_array 7]) NoLabels NoKeys
     (LMDB_Dataset \<lparr>committed = [(''0000000000__ '', sample_value),
                                 (''0000000001__ '', sample_value)], map_size = 2\<rparr> 100 2) =
   Some (Inr \<lparr>db = \<lparr>committed = [(''0000000000__ '', sample_value),
                                   (''0000000001__ '', sample_value)], map_size = 2\<rparr>,
              txn = [], queue_size = 100, index = 3,
              value_list = [Wire (byte_datum 5), Wire (byte_datum 6), Wire (byte_datum 7)],
              key_list = [''0000000000__ '', ''0000000001__ '', ''0000000002__ '']\<rparr>) \<and>
   close unit_size 2
     \<lparr>db = \<lparr>committed = [(''0000000000__ '', sample_value),
                          (''0000000001__ '', sample_value)], map_size = 2\<rparr>,
      txn = [], queue_size = 100, index = 3,
      value_list = [Wire (byte_datum 5), Wire (byte_datum 6), Wire (byte_datum 7)],
      key_list = [''0000000000__ '', ''0000000001__ '', ''0000000002__ '']\<rparr> =
   Some (Inr \<lparr>committed = [(''0000000000__ '', sample_value),
                            (''0000000001__ '', sample_value),
                            (''0000000002__ '', Wire (byte_datum 7))], map_size = 4\<rparr>)"
proof (intro conjI)
  show "put 32 unit_size 2 (Arrays [byte_array 5, byte_array 6, byte_array 7]) NoLabels NoKeys
     (LMDB_Dataset \<lparr>committed = [(''0000000000__ '', sample_value),
                                 (''0000000001__ '', sample_value)], map_size = 2\<rparr> 100 2) =
   Some (Inr \<lparr>db = \<lparr>committed = [(''0000000000__ '', sample_value),
                                   (''0000000001__ '', sample_value)], map_size = 2\<rparr>,
              txn = [], queue_size = 100, index = 3,
              value_list = [Wire (byte_datum 5), Wire (byte_datum 6), Wire (byte_datum 7)],
              key_list = [''0000000000__ '', ''0000000001__ '', ''0000000002__ '']\<rparr>)"
    by (simp add: put_def LMDB_Dataset_def put_datum_def array_to_datum_def byte_array_def
        byte_datum_def view_uint8_tostring_def ufw_dtype_def dtype_dict_def
        SerializeToString_def DB_KEY_FORMAT_def dec.simps digit_char_def replicate_numeral
        label_fits_def)
next
  show "close unit_size 2
     \<lparr>db = \<lparr>committed = [(''0000000000__ '', sample_value),
                          (''0000000001__ '', sample_value)], map_size = 2\<rparr>,
      txn = [], queue_size = 100, index = 3,
      value_list = [Wire (byte_datum 5), Wire (byte_datum 6), Wire (byte_datum 7)],
      key_list = [''0000000000__ '', ''0000000001__ '', ''0000000002__ '']\<rparr> =
   Some (Inr \<lparr>committed = [(''0000000000__ '', sample_value),
                            (''0000000001__ '', sample_value),
                            (''0000000002__ '', Wire (byte_datum 7))], map_size = 4\<rparr>)"
    by (simp add: close_def numeral_2_eq_2 put_kv_def txn_put_def used_def unit_size_def
        key_ok_def max_key_size_def)
qed

text \<open>A key longer than 511 bytes makes \<^verbatim>\<open>txn.put\<close> raise \<^verbatim>\<open>BadValsizeError\<close>, which
  \<^verbatim>\<open>_put\<close> does not catch: the flush ends with that exception and nothing committed.\<close>

lemma flush_long_key_raises:
  "put_batch unit_size 1
     \<lparr>db = \<lparr>committed = [], map_size = 10\<rparr>, txn = [], queue_size = 100, index = 1,
      value_list = [sample_value], key_list = [replicate 512 CHR ''k'']\<rparr> =
   Some (Inl (BadValsizeError,
     \<lparr>db = \<lparr>committed = [], map_size = 10\<rparr>, txn = [], queue_size = 100, index = 1,
      value_list = [sample_value], key_list = [replicate 512 CHR ''k'']\<rparr>))"
  by (simp add: put_kv_def txn_put_def key_ok_def max_key_size_def)

text \<open>With more keys than values in the buffer (as \<^verbatim>\<open>put\<close> with a sequence of arrays and
  one integer label leaves it), \<^verbatim>\<open>zip\<close> pairs only the first keys: the flush writes one
  record for two buffered keys and clears both lists.\<close>

lemma flush_fewer_values_than_keys:
  "put_batch unit_size 1
     \<lparr>db = \<lparr>committed = [], map_size = 10\<rparr>, txn = [], queue_size = 100, index = 2,
      value_list = [sample_value], key_list = [''0000000000__ '', ''0000000001__ '']\<rparr> =
   Some (Inr
     \<lparr>db = \<lparr>committed = [(''0000000000__ '', sample_value)], map_size = 10\<rparr>, txn = [],
      queue_size = 100, index = 2, value_list = [], key_list = []\<rparr>)"
  by (simp add: put_kv_def txn_put_def key_ok_def max_key_size_def used_def unit_size_def)























end
